theory Spec2Isabelle
  imports Main "HOL-Library.Sublist"
begin

section \<open>Python values and string primitives\<close>

text \<open>
  The arguments of the helpers in \<^verbatim>\<open>earthformer/common.py\<close> are untyped: a URL or an
  output path is a \<^verbatim>\<open>str\<close> or \<^verbatim>\<open>None\<close>, and nothing stops a caller from passing
  another object. The model keeps the three cases the code distinguishes: \<^verbatim>\<open>None\<close>, a
  string, and a representative of the objects that are neither (an integer: not a
  string, not path-like, not iterable, without string methods).
\<close>

datatype pyval = PyNone | PyStr string | PyInt int

text \<open>
  Exceptions are values. \<open>TypeError\<close> and \<open>AttributeError\<close> are the two the code can raise
  by itself; \<open>EnvError\<close> carries whatever the file system, the download library or the
  archive libraries raise.
\<close>

datatype exn = TypeError | AttributeError | EnvError string

text \<open>\<^verbatim>\<open>s.startswith(p)\<close>, \<^verbatim>\<open>s.endswith(p)\<close> and \<^verbatim>\<open>p in s\<close> on strings.\<close>

definition startswith :: "string \<Rightarrow> string \<Rightarrow> bool" where
  "startswith s p = prefix p s"

definition endswith :: "string \<Rightarrow> string \<Rightarrow> bool" where
  "endswith s p = suffix p s"

definition contains :: "string \<Rightarrow> string \<Rightarrow> bool" where
  "contains s p = sublist p s"

text \<open>
  \<^verbatim>\<open>s.replace(old, new)\<close>: one scan from the left; at each position where \<open>old\<close> starts,
  \<open>new\<close> is emitted and the scan resumes behind that occurrence, so the replaced
  occurrences do not overlap and the output is never scanned again. With an empty
  \<open>old\<close>, Python puts \<open>new\<close> before every character and at the end.
\<close>

function str_replace :: "string \<Rightarrow> string \<Rightarrow> string \<Rightarrow> string" where
  "str_replace old new [] = (if old = [] then new else [])"
| "str_replace old new (c # cs) =
     (if old = [] then new @ c # str_replace old new cs
      else if prefix old (c # cs) then new @ str_replace old new (drop (length old) (c # cs))
      else c # str_replace old new cs)"
  by pat_completeness auto
termination
  by (relation "measure (\<lambda>(old, new, s). length s)") (auto simp: neq_Nil_conv)

section \<open>\<^verbatim>\<open>github_raw_url\<close>\<close>

text \<open>
  \<^verbatim>\<open>
  def github_raw_url(url):
      if isinstance(url, str) and url.startswith("https://github.com/") and "blob" in url:
          url = url.replace("github.com", "raw.githubusercontent.com").replace("blob/", "")
      return url
  \<close>
\<close>

definition github_raw_url :: "pyval \<Rightarrow> pyval" where
  "github_raw_url url =
     (case url of
        PyStr u \<Rightarrow>
          if startswith u ''https://github.com/'' \<and> contains u ''blob''
          then PyStr (str_replace ''blob/'' ''''
                        (str_replace ''github.com'' ''raw.githubusercontent.com'' u))
          else url
      | _ \<Rightarrow> url)"

section \<open>Path functions of the standard library (\<^verbatim>\<open>posixpath\<close>)\<close>

text \<open>
  The code manipulates paths with \<^verbatim>\<open>os.path\<close>, which on a POSIX system is the pure-string
  module \<^verbatim>\<open>posixpath\<close>. Its functions are written out here as that module computes them.
  \<open>rfind\<close> is \<^verbatim>\<open>str.rfind\<close> for a single character: the last index, or \<open>-1\<close>.
\<close>

definition rfind :: "string \<Rightarrow> char \<Rightarrow> int" where
  "rfind s c =
     (if c \<in> set s then int (length s) - 1 - int (length (takeWhile (\<lambda>x. x \<noteq> c) (rev s)))
      else - 1)"

definition rstrip :: "char \<Rightarrow> string \<Rightarrow> string" where
  "rstrip c s = rev (dropWhile (\<lambda>x. x = c) (rev s))"

text \<open>\<^verbatim>\<open>i = p.rfind('/') + 1; return p[i:]\<close>\<close>

definition os_path_basename :: "string \<Rightarrow> string" where
  "os_path_basename p = drop (nat (rfind p (CHR ''/'') + 1)) p"

text \<open>
  \<^verbatim>\<open>
  i = p.rfind('/') + 1
  head = p[:i]
  if head and head != '/' * len(head):
      head = head.rstrip('/')
  return head
  \<close>
\<close>

definition os_path_dirname :: "string \<Rightarrow> string" where
  "os_path_dirname p =
     (let head = take (nat (rfind p (CHR ''/'') + 1)) p
      in if head \<noteq> [] \<and> head \<noteq> replicate (length head) (CHR ''/'')
         then rstrip (CHR ''/'') head else head)"

text \<open>
  \<^verbatim>\<open>os.path.join(a, b)\<close> with one component: an absolute \<open>b\<close> discards \<open>a\<close>; otherwise a
  separator is inserted unless \<open>a\<close> is empty or already ends with one.
\<close>

definition os_path_join :: "string \<Rightarrow> string \<Rightarrow> string" where
  "os_path_join a b =
     (if startswith b ''/'' then b
      else if a = [] \<or> endswith a ''/'' then a @ b
      else a @ ''/'' @ b)"

text \<open>
  \<^verbatim>\<open>os.path.splitext\<close>: the extension starts at the last dot of the last component,
  unless that component has only dots before it.
  \<^verbatim>\<open>
  sepIndex = p.rfind('/')
  dotIndex = p.rfind('.')
  if dotIndex > sepIndex:
      filenameIndex = sepIndex + 1
      while filenameIndex < dotIndex:
          if p[filenameIndex:filenameIndex+1] != '.':
              return p[:dotIndex], p[dotIndex:]
          filenameIndex += 1
  return p, p[:0]
  \<close>
\<close>

definition os_path_splitext :: "string \<Rightarrow> string \<times> string" where
  "os_path_splitext p =
     (let sepIndex = rfind p (CHR ''/'');
          dotIndex = rfind p (CHR ''.'')
      in if dotIndex > sepIndex \<and>
            list_ex (\<lambda>c. c \<noteq> CHR ''.'')
              (take (nat (dotIndex - (sepIndex + 1))) (drop (nat (sepIndex + 1)) p))
         then (take (nat dotIndex) p, drop (nat dotIndex) p)
         else (p, []))"

text \<open>\<^verbatim>\<open>str.split(sep)\<close> for a one-character separator, and \<^verbatim>\<open>sep.join(xs)\<close>.\<close>

fun str_split :: "char \<Rightarrow> string \<Rightarrow> string list" where
  "str_split sep [] = [[]]"
| "str_split sep (c # cs) =
     (if c = sep then [] # str_split sep cs
      else (case str_split sep cs of [] \<Rightarrow> [[c]] | x # xs \<Rightarrow> (c # x) # xs))"

fun str_join :: "string \<Rightarrow> string list \<Rightarrow> string" where
  "str_join sep [] = []"
| "str_join sep [x] = x"
| "str_join sep (x # y # ys) = x @ sep @ str_join sep (y # ys)"

text \<open>
  \<^verbatim>\<open>os.path.normpath\<close>: empty and \<open>.\<close> components are dropped, \<open>..\<close> removes the
  component before it where there is one to remove, one or exactly two leading slashes
  are kept, and the empty result is \<open>.\<close>.
\<close>

definition normpath_step :: "nat \<Rightarrow> string list \<Rightarrow> string \<Rightarrow> string list" where
  "normpath_step initial_slashes new_comps part =
     (if part = [] \<or> part = ''.'' then new_comps
      else if part \<noteq> ''..'' \<or> (initial_slashes = 0 \<and> new_comps = []) \<or>
              (new_comps \<noteq> [] \<and> last new_comps = ''..'')
           then new_comps @ [part]
      else if new_comps \<noteq> [] then butlast new_comps
      else new_comps)"

definition os_path_normpath :: "string \<Rightarrow> string" where
  "os_path_normpath path =
     (if path = [] then ''.''
      else
        let initial_slashes =
              (if startswith path ''/''
               then (if startswith path ''//'' \<and> \<not> startswith path ''///'' then 2 else 1)
               else 0);
            comps = foldl (normpath_step initial_slashes) [] (str_split (CHR ''/'') path);
            path1 = replicate initial_slashes (CHR ''/'') @ str_join ''/'' comps
        in if path1 = [] then ''.'' else path1)"

text \<open>
  \<^verbatim>\<open>os.path.abspath\<close>: a relative path is joined to the working directory, then the
  result is normalised. The working directory is the first argument.
\<close>

definition os_path_abspath :: "string \<Rightarrow> string \<Rightarrow> string" where
  "os_path_abspath cwd path =
     os_path_normpath (if startswith path ''/'' then path else os_path_join cwd path)"

section \<open>The environment: file system, download library, archive libraries\<close>

text \<open>
  What \<^verbatim>\<open>download_file\<close> does beyond computing strings goes through calls the module does
  not implement: \<^verbatim>\<open>os.path.exists\<close>, \<^verbatim>\<open>os.makedirs\<close>, \<^verbatim>\<open>gdown.download\<close>,
  \<^verbatim>\<open>zipfile.ZipFile\<close>, \<^verbatim>\<open>tarfile.open\<close> and their \<^verbatim>\<open>extractall\<close>. They are the fields of
  an environment, arbitrary functions of a file-system state \<open>'fs\<close>: each returns a value
  or raises, and leaves a file system behind in both cases. The working directory is a
  fixed string (nothing here changes it), and \<open>gdown_importable\<close> says whether
  \<^verbatim>\<open>import gdown\<close> succeeds.
\<close>

record gdown_args =
  a_url :: pyval
  a_output :: pyval
  a_quiet :: bool
  a_proxy :: pyval
  a_speed :: pyval
  a_use_cookies :: bool
  a_verify :: pyval
  a_id :: pyval
  a_fuzzy :: bool
  a_resume :: bool

datatype archive = Zip | Tar string

record 'fs env =
  gdown_importable :: bool
  os_getcwd :: string
  os_path_exists :: "'fs \<Rightarrow> string \<Rightarrow> bool"
  os_makedirs :: "string \<Rightarrow> 'fs \<Rightarrow> (exn + unit) \<times> 'fs"
  gdown_download :: "gdown_args \<Rightarrow> 'fs \<Rightarrow> (exn + pyval) \<times> 'fs"
  archive_open :: "archive \<Rightarrow> string \<Rightarrow> 'fs \<Rightarrow> (exn + unit) \<times> 'fs"
  archive_extractall :: "archive \<Rightarrow> string \<Rightarrow> string \<Rightarrow> 'fs \<Rightarrow> (exn + unit) \<times> 'fs"

text \<open>
  Every call that leaves the module is logged, in order, with its arguments; so is
  every \<^verbatim>\<open>print\<close>. \<open>Open k a\<close> is \<^verbatim>\<open>zipfile.ZipFile(a, "r")\<close> for \<open>k = Zip\<close> and
  \<^verbatim>\<open>tarfile.open(a, mode)\<close> for \<open>k = Tar mode\<close>; \<open>ExtractAll k a d\<close> is \<^verbatim>\<open>extractall(d)\<close>
  on the archive opened from \<open>a\<close>.
\<close>

datatype event =
    Print string
  | Makedirs string
  | Download gdown_args
  | Open archive string
  | ExtractAll archive string string

record 'fs state =
  fs :: 'fs
  trace :: "event list"

type_synonym ('fs, 'a) prog = "'fs state \<Rightarrow> (exn + 'a) \<times> 'fs state"

definition ret :: "'a \<Rightarrow> ('fs, 'a) prog" where
  "ret x st = (Inr x, st)"

definition raise :: "exn \<Rightarrow> ('fs, 'a) prog" where
  "raise e st = (Inl e, st)"

definition lift :: "exn + 'a \<Rightarrow> ('fs, 'a) prog" where
  "lift r st = (r, st)"

text \<open>Sequencing: an exception of the first part ends the run, in the state reached.\<close>

definition and_then :: "('fs, 'a) prog \<Rightarrow> ('a \<Rightarrow> ('fs, 'b) prog) \<Rightarrow> ('fs, 'b) prog" where
  "and_then m f st = (case m st of (Inl e, st1) \<Rightarrow> (Inl e, st1) | (Inr x, st1) \<Rightarrow> f x st1)"

definition emit :: "event \<Rightarrow> ('fs, unit) prog" where
  "emit ev st = (Inr (), st\<lparr>trace := trace st @ [ev]\<rparr>)"

text \<open>An external call: logged, then run on the current file system.\<close>

definition call :: "event \<Rightarrow> ('fs \<Rightarrow> (exn + 'a) \<times> 'fs) \<Rightarrow> ('fs, 'a) prog" where
  "call ev f st = (case f (fs st) of (r, fs1) \<Rightarrow> (r, \<lparr>fs = fs1, trace = trace st @ [ev]\<rparr>))"

definition check_exists :: "'fs env \<Rightarrow> string \<Rightarrow> ('fs, bool) prog" where
  "check_exists env p st = (Inr (os_path_exists env (fs st) p), st)"

text \<open>
  The path functions and the string operations applied to an object that may not be a
  string: \<^verbatim>\<open>os.path\<close> raises \<open>TypeError\<close> on \<^verbatim>\<open>None\<close> and on an integer, \<^verbatim>\<open>x in url\<close> raises
  \<open>TypeError\<close> when \<open>url\<close> is not iterable, and a method missing from the object is an
  \<open>AttributeError\<close>.
\<close>

definition py_dirname :: "pyval \<Rightarrow> exn + string" where
  "py_dirname v = (case v of PyStr s \<Rightarrow> Inr (os_path_dirname s) | _ \<Rightarrow> Inl TypeError)"

definition py_basename :: "pyval \<Rightarrow> exn + string" where
  "py_basename v = (case v of PyStr s \<Rightarrow> Inr (os_path_basename s) | _ \<Rightarrow> Inl TypeError)"

definition py_abspath :: "'fs env \<Rightarrow> pyval \<Rightarrow> exn + string" where
  "py_abspath env v =
     (case v of PyStr s \<Rightarrow> Inr (os_path_abspath (os_getcwd env) s) | _ \<Rightarrow> Inl TypeError)"

definition py_join :: "pyval \<Rightarrow> pyval \<Rightarrow> exn + string" where
  "py_join a b =
     (case (a, b) of (PyStr x, PyStr y) \<Rightarrow> Inr (os_path_join x y) | _ \<Rightarrow> Inl TypeError)"

definition py_in :: "string \<Rightarrow> pyval \<Rightarrow> exn + bool" where
  "py_in needle v = (case v of PyStr s \<Rightarrow> Inr (contains s needle) | _ \<Rightarrow> Inl TypeError)"

section \<open>\<^verbatim>\<open>download_file\<close>\<close>

text \<open>
  The keyword arguments other than \<open>url\<close> and \<open>output\<close>. The flags the code only tests for
  truth are booleans; \<open>proxy\<close>, \<open>speed\<close>, \<open>verify\<close> and \<open>id\<close> are handed to the library
  untouched.
\<close>

record dl_opts =
  quiet :: bool
  proxy :: pyval
  speed :: pyval
  use_cookies :: bool
  verify :: pyval
  file_id :: pyval
  fuzzy :: bool
  resume :: bool
  unzip :: bool
  overwrite :: bool
  subfolder :: bool

definition gdown_missing_message :: string where
  "gdown_missing_message =
     ''The gdown package is required for this function. Use `pip install gdown` to install it.''"

definition skip_message :: "string \<Rightarrow> string" where
  "skip_message output =
     output @ '' already exists. Skip downloading. Set overwrite=True to overwrite.''"

definition gdrive_marker :: string where
  "gdrive_marker = ''https://drive.google.com/file/d/''"

text \<open>
  Lines 68 to 70:
  \<^verbatim>\<open>
  if output is None:
      if isinstance(url, str) and url.startswith("http"):
          output = os.path.basename(url)
  \<close>
\<close>

definition default_output :: "pyval \<Rightarrow> pyval \<Rightarrow> pyval" where
  "default_output url output =
     (if output = PyNone
      then (case url of
              PyStr u \<Rightarrow> if startswith u ''http'' then PyStr (os_path_basename u) else output
            | _ \<Rightarrow> output)
      else output)"

text \<open>
  Lines 72 to 74:
  \<^verbatim>\<open>
  out_dir = os.path.abspath(os.path.dirname(output))
  if not os.path.exists(out_dir):
      os.makedirs(out_dir)
  \<close>
\<close>

definition ensure_out_dir :: "'fs env \<Rightarrow> pyval \<Rightarrow> ('fs, string) prog" where
  "ensure_out_dir env output =
     and_then (lift (py_dirname output)) (\<lambda>d.
       let out_dir = os_path_abspath (os_getcwd env) d in
       and_then (check_exists env out_dir) (\<lambda>ex.
         if \<not> ex
         then and_then (call (Makedirs out_dir) (os_makedirs env out_dir)) (\<lambda>_. ret out_dir)
         else ret out_dir))"

text \<open>
  Lines 76 to 83 either leave the function with the existing path or go on with the
  rewritten URL:
  \<^verbatim>\<open>
  if isinstance(url, str):
      if os.path.exists(os.path.abspath(output)) and (not overwrite):
          print(f"{output} already exists. Skip downloading. Set overwrite=True to overwrite.")
          return os.path.abspath(output)
      else:
          url = github_raw_url(url)
  \<close>
\<close>

datatype decision = Skip string | Proceed pyval

definition skip_or_rewrite ::
  "'fs env \<Rightarrow> pyval \<Rightarrow> pyval \<Rightarrow> dl_opts \<Rightarrow> ('fs, decision) prog" where
  "skip_or_rewrite env url output opts =
     (case url of
        PyStr u \<Rightarrow>
          (case output of
             PyStr out \<Rightarrow>
               and_then (check_exists env (os_path_abspath (os_getcwd env) out)) (\<lambda>ex.
                 if ex \<and> \<not> overwrite opts
                 then and_then (emit (Print (skip_message out)))
                        (\<lambda>_. ret (Skip (os_path_abspath (os_getcwd env) out)))
                 else ret (Proceed (github_raw_url url)))
           | _ \<Rightarrow> raise TypeError)
      | _ \<Rightarrow> ret (Proceed url))"

text \<open>
  Lines 85 to 90:
  \<^verbatim>\<open>
  if "https://drive.google.com/file/d/" in url:
      fuzzy = True
  output = gdown.download(
      url, output, quiet, proxy, speed, use_cookies, verify, id, fuzzy, resume)
  \<close>
\<close>

definition transfer :: "'fs env \<Rightarrow> pyval \<Rightarrow> pyval \<Rightarrow> dl_opts \<Rightarrow> ('fs, pyval) prog" where
  "transfer env url output opts =
     and_then (lift (py_in gdrive_marker url)) (\<lambda>is_drive.
       let fuzzy1 = (if is_drive then True else fuzzy opts);
           args = \<lparr>a_url = url, a_output = output, a_quiet = quiet opts,
                   a_proxy = proxy opts, a_speed = speed opts,
                   a_use_cookies = use_cookies opts, a_verify = verify opts,
                   a_id = file_id opts, a_fuzzy = fuzzy1, a_resume = resume opts\<rparr>
       in call (Download args) (gdown_download env args))"

text \<open>
  The body of either \<^verbatim>\<open>with\<close> block (lines 94 to 105 for zip, 112 to 122 for tar, the same
  text but for the archive object); the result is the new value of \<open>output\<close>.
  \<^verbatim>\<open>
  with zipfile.ZipFile(output, "r") as zip_ref:
      if not quiet:
          print("Extracting files...")
      if subfolder:
          basename = os.path.splitext(os.path.basename(output))[0]
          output = os.path.join(out_dir, basename)
          if not os.path.exists(output):
              os.makedirs(output)
          zip_ref.extractall(output)
      else:
          zip_ref.extractall(os.path.dirname(output))
  \<close>
\<close>

definition extract_into ::
  "'fs env \<Rightarrow> archive \<Rightarrow> string \<Rightarrow> string \<Rightarrow> dl_opts \<Rightarrow> ('fs, string) prog" where
  "extract_into env k out_dir output opts =
     and_then (call (Open k output) (archive_open env k output)) (\<lambda>_.
     and_then (if \<not> quiet opts then emit (Print ''Extracting files...'') else ret ()) (\<lambda>_.
       if subfolder opts
       then
         let basename = fst (os_path_splitext (os_path_basename output));
             output1 = os_path_join out_dir basename
         in and_then (check_exists env output1) (\<lambda>ex.
            and_then (if \<not> ex then call (Makedirs output1) (os_makedirs env output1)
                      else ret ()) (\<lambda>_.
            and_then (call (ExtractAll k output output1)
                        (archive_extractall env k output output1)) (\<lambda>_.
            ret output1)))
       else
         and_then (call (ExtractAll k output (os_path_dirname output))
                     (archive_extractall env k output (os_path_dirname output))) (\<lambda>_.
         ret output)))"

text \<open>
  Lines 93 to 122, entered when \<open>unzip\<close> is true:
  \<^verbatim>\<open>
  if output.endswith(".zip"):
      ...
  elif output.endswith(".tar.gz") or output.endswith(".tar"):
      if output.endswith(".tar.gz"):
          mode = "r:gz"
      else:
          mode = "r"
      ...
  \<close>
  \<open>output\<close> is what the library returned; \<^verbatim>\<open>None\<close> has no \<^verbatim>\<open>endswith\<close>.
\<close>

definition unzip_output :: "'fs env \<Rightarrow> string \<Rightarrow> pyval \<Rightarrow> dl_opts \<Rightarrow> ('fs, pyval) prog" where
  "unzip_output env out_dir output opts =
     (case output of
        PyStr out \<Rightarrow>
          if endswith out ''.zip''
          then and_then (extract_into env Zip out_dir out opts) (\<lambda>r. ret (PyStr r))
          else if endswith out ''.tar.gz'' \<or> endswith out ''.tar''
          then
            let mode = (if endswith out ''.tar.gz'' then ''r:gz'' else ''r'')
            in and_then (extract_into env (Tar mode) out_dir out opts) (\<lambda>r. ret (PyStr r))
          else ret output
      | _ \<Rightarrow> raise AttributeError)"

text \<open>
  Everything behind the directory step (lines 76 to 124), and the whole function: the
  import guard (lines 60 to 66), the default output, the directory step, the rest.
\<close>

definition after_out_dir ::
  "'fs env \<Rightarrow> pyval \<Rightarrow> pyval \<Rightarrow> string \<Rightarrow> dl_opts \<Rightarrow> ('fs, pyval) prog" where
  "after_out_dir env url output out_dir opts =
     and_then (skip_or_rewrite env url output opts) (\<lambda>d.
       case d of
         Skip p \<Rightarrow> ret (PyStr p)
       | Proceed url1 \<Rightarrow>
           and_then (transfer env url1 output opts) (\<lambda>output1.
           and_then (if unzip opts then unzip_output env out_dir output1 opts else ret output1)
             (\<lambda>output2.
           and_then (lift (py_abspath env output2)) (\<lambda>p. ret (PyStr p)))))"

definition download_file ::
  "'fs env \<Rightarrow> pyval \<Rightarrow> pyval \<Rightarrow> dl_opts \<Rightarrow> ('fs, pyval) prog" where
  "download_file env url output opts =
     (if \<not> gdown_importable env
      then and_then (emit (Print gdown_missing_message)) (\<lambda>_. ret PyNone)
      else
        let output1 = default_output url output in
        and_then (ensure_out_dir env output1) (\<lambda>out_dir.
          after_out_dir env url output1 out_dir opts))"

section \<open>\<^verbatim>\<open>download_files\<close>\<close>

text \<open>
  Lines 169 to 172, the destination of one item:
  \<^verbatim>\<open>
  if output is None:
      filename = os.path.join(out_dir, os.path.basename(url))
  else:
      filename = os.path.join(out_dir, output)
  \<close>
\<close>

definition destination :: "pyval \<Rightarrow> pyval \<Rightarrow> pyval \<Rightarrow> exn + string" where
  "destination out_dir url output =
     (if output = PyNone
      then (case py_basename url of Inl e \<Rightarrow> Inl e | Inr b \<Rightarrow> py_join out_dir (PyStr b))
      else py_join out_dir output)"

text \<open>
  The loop of lines 168 to 188 over the pairs of \<^verbatim>\<open>zip(urls, filenames)\<close>. The function
  called on each item is a parameter, so that what the loop passes to it can be stated
  for any callee; \<open>download_files\<close> below passes \<open>download_file\<close>. The loop has no
  \<^verbatim>\<open>try\<close>: an exception ends it in the state reached.
\<close>

fun download_loop ::
  "(pyval \<Rightarrow> pyval \<Rightarrow> dl_opts \<Rightarrow> 'st \<Rightarrow> (exn + 'r) \<times> 'st) \<Rightarrow> pyval \<Rightarrow> dl_opts \<Rightarrow>
   (pyval \<times> pyval) list \<Rightarrow> 'st \<Rightarrow> (exn + unit) \<times> 'st" where
  "download_loop f out_dir opts [] st = (Inr (), st)"
| "download_loop f out_dir opts ((url, output) # rest) st =
     (case destination out_dir url output of
        Inl e \<Rightarrow> (Inl e, st)
      | Inr filename \<Rightarrow>
          (case f url (PyStr filename) opts st of
             (Inl e, st1) \<Rightarrow> (Inl e, st1)
           | (Inr _, st1) \<Rightarrow> download_loop f out_dir opts rest st1))"

text \<open>
  Lines 162 to 168:
  \<^verbatim>\<open>
  if out_dir is None:
      out_dir = os.getcwd()
  if filenames is None:
      filenames = [None] * len(urls)
  for url, output in zip(urls, filenames):
  \<close>
\<close>

definition download_files_with ::
  "(pyval \<Rightarrow> pyval \<Rightarrow> dl_opts \<Rightarrow> 'st \<Rightarrow> (exn + 'r) \<times> 'st) \<Rightarrow> string \<Rightarrow> pyval list \<Rightarrow> pyval \<Rightarrow>
   pyval list option \<Rightarrow> dl_opts \<Rightarrow> 'st \<Rightarrow> (exn + unit) \<times> 'st" where
  "download_files_with f cwd urls out_dir filenames opts =
     (let out_dir1 = (if out_dir = PyNone then PyStr cwd else out_dir);
          filenames1 = (case filenames of
                          None \<Rightarrow> replicate (length urls) PyNone
                        | Some names \<Rightarrow> names)
      in download_loop f out_dir1 opts (zip urls filenames1))"

definition download_files ::
  "'fs env \<Rightarrow> pyval list \<Rightarrow> pyval \<Rightarrow> pyval list option \<Rightarrow> dl_opts \<Rightarrow>
   'fs state \<Rightarrow> (exn + unit) \<times> 'fs state" where
  "download_files env = download_files_with (download_file env) (os_getcwd env)"

section \<open>Vocabulary of the properties\<close>

text \<open>
  The events a run has added to the log: the log only grows at its end, so they are
  what lies behind the events that were there before.
\<close>

definition new_events :: "'fs state \<Rightarrow> 'fs state \<Rightarrow> event list" where
  "new_events st st1 = drop (length (trace st)) (trace st1)"

text \<open>\<open>appends P m\<close>: whatever state \<open>m\<close> starts in, it only appends events that satisfy \<open>P\<close>.\<close>

definition appends :: "(event \<Rightarrow> bool) \<Rightarrow> ('fs, 'a) prog \<Rightarrow> bool" where
  "appends P m \<longleftrightarrow> (\<forall>st. \<exists>evs. trace (snd (m st)) = trace st @ evs \<and> list_all P evs)"

text \<open>
  Two words overlap when a non-empty end of the first is a beginning of the second;
  they lie apart when neither contains the other and they do not overlap either way.
  An occurrence of a word in a string can then not share a character with an
  occurrence of the other.
\<close>

definition border :: "'a list \<Rightarrow> 'a list \<Rightarrow> bool" where
  "border x y = list_ex (\<lambda>t. t \<noteq> [] \<and> prefix t y) (suffixes x)"

definition apart :: "'a list \<Rightarrow> 'a list \<Rightarrow> bool" where
  "apart old p \<longleftrightarrow>
     \<not> sublist old p \<and> \<not> sublist p old \<and> \<not> border old p \<and> \<not> border p old"

text \<open>
  A callee wrapped so that every call leaves its two positional arguments, the URL and
  the destination, in a list kept beside the state. The wrapper changes neither the
  callee's result nor the state it leaves.
\<close>

definition logged ::
  "(pyval \<Rightarrow> pyval \<Rightarrow> dl_opts \<Rightarrow> 'st \<Rightarrow> (exn + 'r) \<times> 'st) \<Rightarrow>
   pyval \<Rightarrow> pyval \<Rightarrow> dl_opts \<Rightarrow> (pyval \<times> pyval) list \<times> 'st \<Rightarrow>
   (exn + 'r) \<times> (pyval \<times> pyval) list \<times> 'st" where
  "logged f url output opts =
     (\<lambda>(calls, st). case f url output opts st of
                       (r, st1) \<Rightarrow> (r, (calls @ [(url, output)], st1)))"

text \<open>
  A small concrete environment for running the model: the file system is the list of
  the paths that exist, the working directory is \<open>/w\<close>, \<open>makedirs\<close> adds its path, the
  download writes the file it is asked for and returns its path, every archive opens,
  and extraction adds the destination.
\<close>

definition sample_env :: "bool \<Rightarrow> string list env" where
  "sample_env importable =
     \<lparr>gdown_importable = importable,
      os_getcwd = ''/w'',
      os_path_exists = (\<lambda>paths p. p \<in> set paths),
      os_makedirs = (\<lambda>p paths. (Inr (), p # paths)),
      gdown_download = (\<lambda>a paths.
        case a_output a of
          PyStr out \<Rightarrow> (Inr (PyStr out), os_path_abspath ''/w'' out # paths)
        | _ \<Rightarrow> (Inl (EnvError ''no output''), paths)),
      archive_open = (\<lambda>k a paths. (Inr (), paths)),
      archive_extractall = (\<lambda>k a d paths. (Inr (), d # paths))\<rparr>"

definition sample_opts :: dl_opts where
  "sample_opts =
     \<lparr>quiet = False, proxy = PyNone, speed = PyNone, use_cookies = True,
      verify = PyNone, file_id = PyNone, fuzzy = False, resume = False,
      unzip = True, overwrite = False, subfolder = False\<rparr>"

definition sample_state :: "string list \<Rightarrow> string list state" where
  "sample_state paths = \<lparr>fs = paths, trace = []\<rparr>"

text \<open>Two classes of events: everything but a transfer, and a transfer only with
  \<open>fuzzy\<close> set.\<close>

definition not_download :: "event \<Rightarrow> bool" where
  "not_download ev = (case ev of Download a \<Rightarrow> False | _ \<Rightarrow> True)"

definition fuzzy_if_download :: "event \<Rightarrow> bool" where
  "fuzzy_if_download ev = (case ev of Download a \<Rightarrow> a_fuzzy a | _ \<Rightarrow> True)"

text \<open>
  What \<^verbatim>\<open>os.makedirs\<close> promises: when it returns, the directory exists. The model's
  environment is arbitrary, so the properties that rely on this say so.
\<close>

definition makedirs_creates :: "'fs env \<Rightarrow> bool" where
  "makedirs_creates env \<longleftrightarrow>
     (\<forall>p s s1. os_makedirs env p s = (Inr (), s1) \<longrightarrow> os_path_exists env s1 p)"

text \<open>
  The calls \<^verbatim>\<open>download_files\<close> makes to \<^verbatim>\<open>download_file\<close>, in order, as pairs of URL and
  destination: the list the wrapped callee has filled when the batch ends, by returning
  or by an exception.
\<close>

definition calls_made ::
  "'fs env \<Rightarrow> pyval list \<Rightarrow> pyval \<Rightarrow> pyval list option \<Rightarrow> dl_opts \<Rightarrow> 'fs state \<Rightarrow>
   (pyval \<times> pyval) list" where
  "calls_made env urls out_dir filenames opts st =
     fst (snd (download_files_with (logged (download_file env)) (os_getcwd env)
                 urls out_dir filenames opts ([], st)))"

section \<open>Unfolding the model\<close>

lemmas prog_defs =
  ret_def raise_def lift_def and_then_def emit_def call_def check_exists_def

lemmas py_defs =
  py_dirname_def py_basename_def py_abspath_def py_join_def py_in_def

lemmas string_defs =
  startswith_def endswith_def contains_def suffix_to_prefix sublist_code

lemmas path_defs =
  rfind_def rstrip_def os_path_basename_def os_path_dirname_def os_path_join_def
  os_path_splitext_def normpath_step_def os_path_normpath_def os_path_abspath_def

lemmas download_file_defs =
  download_file_def default_output_def ensure_out_dir_def after_out_dir_def
  skip_or_rewrite_def transfer_def unzip_output_def extract_into_def
  github_raw_url_def gdrive_marker_def skip_message_def

lemmas sample_defs = sample_env_def sample_opts_def sample_state_def

section \<open>The URL rewriting\<close>

text \<open>
  C2. For a string that starts with \<^verbatim>\<open>https://github.com/\<close> and contains \<^verbatim>\<open>blob\<close>,
  \<^verbatim>\<open>github_raw_url\<close> returns the string with \<^verbatim>\<open>github.com\<close> replaced by
  \<^verbatim>\<open>raw.githubusercontent.com\<close> and then \<^verbatim>\<open>blob/\<close> replaced by nothing, both in the sense of
  \<^verbatim>\<open>str.replace\<close> (every occurrence found by one scan from the left). Every other string,
  \<^verbatim>\<open>None\<close> and a non-string object come back unchanged.
\<close>

theorem github_raw_url_rewrites:
  "github_raw_url (PyStr u) =
     (if startswith u ''https://github.com/'' \<and> contains u ''blob''
      then PyStr (str_replace ''blob/'' ''''
                    (str_replace ''github.com'' ''raw.githubusercontent.com'' u))
      else PyStr u)
   \<and> github_raw_url PyNone = PyNone
   \<and> github_raw_url (PyInt i) = PyInt i"
  by (simp add: github_raw_url_def)

theorem github_raw_url_rewrites_witness:
  "github_raw_url (PyStr ''https://github.com/a/b/blob/main/x.py'') =
     PyStr ''https://raw.githubusercontent.com/a/b/main/x.py''
   \<and> github_raw_url PyNone = PyNone
   \<and> github_raw_url (PyInt 7) = PyInt 7"
  using github_raw_url_rewrites [of "''https://github.com/a/b/blob/main/x.py''" 7]
  by (simp add: startswith_def contains_def sublist_code)

section \<open>The import guard\<close>

text \<open>
  C5. When \<^verbatim>\<open>gdown\<close> cannot be imported, \<^verbatim>\<open>download_file\<close> returns \<^verbatim>\<open>None\<close>; the file system
  is the one it started with and the only thing the call has done is print the
  message: no directory is made, no transfer is started, nothing is extracted.
\<close>

theorem gdown_missing_returns_none:
  "\<not> gdown_importable env \<Longrightarrow>
   download_file env url output opts st =
     (Inr PyNone, st\<lparr>trace := trace st @ [Print gdown_missing_message]\<rparr>)"
  by (simp add: download_file_def and_then_def emit_def ret_def)

theorem gdown_missing_returns_none_witness:
  "\<not> gdown_importable (sample_env False) \<and>
   download_file (sample_env False) (PyStr ''https://x.org/a.zip'') PyNone sample_opts
       (sample_state [''/w'']) =
     (Inr PyNone, \<lparr>fs = [''/w''], trace = [Print gdown_missing_message]\<rparr>)"
  using gdown_missing_returns_none
    [of "sample_env False" "PyStr ''https://x.org/a.zip''" PyNone sample_opts
        "sample_state [''/w'']"]
  by (simp add: sample_env_def sample_state_def)

section \<open>What a run appends to the log\<close>

text \<open>
  The combinators preserve \<open>appends P\<close>, so a property of the events of a whole run
  follows from the events each step can emit.
\<close>

lemma appends_ret: "appends P (ret x)"
  by (simp add: appends_def ret_def)

lemma appends_raise: "appends P (raise e)"
  by (simp add: appends_def raise_def)

lemma appends_lift: "appends P (lift r)"
  by (simp add: appends_def lift_def)

lemma appends_check_exists: "appends P (check_exists env p)"
  by (simp add: appends_def check_exists_def)

lemma appends_emit: "P ev \<Longrightarrow> appends P (emit ev)"
  by (simp add: appends_def emit_def)

lemma appends_call: "P ev \<Longrightarrow> appends P (call ev f)"
  by (simp add: appends_def call_def split: prod.split)

lemma appends_and_then_res:
  assumes m: "appends P m"
    and f: "\<And>st x st1. m st = (Inr x, st1) \<Longrightarrow> appends P (f x)"
  shows "appends P (and_then m f)"
  unfolding appends_def
proof
  fix st
  from m obtain evs where evs: "trace (snd (m st)) = trace st @ evs" "list_all P evs"
    unfolding appends_def by blast
  obtain r st1 where run: "m st = (r, st1)"
    by (cases "m st")
  show "\<exists>evs. trace (snd (and_then m f st)) = trace st @ evs \<and> list_all P evs"
  proof (cases r)
    case (Inl e)
    with run evs show ?thesis
      by (auto simp: and_then_def)
  next
    case (Inr x)
    with run f have "appends P (f x)"
      by blast
    then obtain evs1 where "trace (snd (f x st1)) = trace st1 @ evs1" "list_all P evs1"
      unfolding appends_def by blast
    with run Inr evs show ?thesis
      by (auto simp: and_then_def)
  qed
qed

lemma appends_and_then:
  "appends P m \<Longrightarrow> (\<And>x. appends P (f x)) \<Longrightarrow> appends P (and_then m f)"
  by (rule appends_and_then_res)

lemma appends_if:
  "(c \<Longrightarrow> appends P a) \<Longrightarrow> (\<not> c \<Longrightarrow> appends P b) \<Longrightarrow> appends P (if c then a else b)"
  by simp

lemma appends_weaken:
  assumes "appends Q m" and "\<And>ev. Q ev \<Longrightarrow> P ev"
  shows "appends P m"
  using assms unfolding appends_def list_all_iff by metis

lemma appends_new_events:
  "appends P m \<Longrightarrow> list_all P (new_events st (snd (m st)))"
  unfolding appends_def new_events_def
  by (metis append_eq_conv_conj)

lemmas appends_intros =
  appends_ret appends_raise appends_lift appends_check_exists appends_emit appends_call
  appends_and_then appends_if

lemma ensure_out_dir_quiet: "appends not_download (ensure_out_dir env output)"
  unfolding ensure_out_dir_def Let_def
  by (intro appends_intros) (simp_all add: not_download_def)

lemma skip_or_rewrite_quiet: "appends not_download (skip_or_rewrite env url output opts)"
  unfolding skip_or_rewrite_def
  by (auto split: pyval.split intro!: appends_intros simp: not_download_def)

lemma extract_into_quiet: "appends not_download (extract_into env k out_dir output opts)"
  unfolding extract_into_def Let_def
  by (intro appends_intros) (simp_all add: not_download_def)

lemma unzip_output_quiet: "appends not_download (unzip_output env out_dir output opts)"
  unfolding unzip_output_def Let_def
  by (auto split: pyval.split intro!: appends_intros extract_into_quiet)

lemma not_download_fuzzy: "not_download ev \<Longrightarrow> fuzzy_if_download ev"
  by (cases ev) (simp_all add: not_download_def fuzzy_if_download_def)

section \<open>Replacement keeps a word that lies apart\<close>

text \<open>
  \<^verbatim>\<open>str.replace\<close> changes only the characters of the occurrences of \<open>old\<close> it finds. A
  word that lies apart from \<open>old\<close> shares no character with any of them, so each of its
  occurrences is still there afterwards. This is what lets the Google Drive marker
  survive the two replacements of \<^verbatim>\<open>github_raw_url\<close>.
\<close>

lemma border_iff: "border x y \<longleftrightarrow> (\<exists>t. t \<noteq> [] \<and> suffix t x \<and> prefix t y)"
  by (auto simp: border_def list_ex_iff in_set_suffixes)

lemma replace_through:
  assumes old: "old \<noteq> []"
    and noin: "\<not> sublist old (p1 @ q)"
    and nob: "\<not> border (p1 @ q) old"
  shows "str_replace old new (q @ b) = q @ str_replace old new b"
  using noin nob
proof (induction q arbitrary: p1)
  case Nil
  then show ?case by simp
next
  case (Cons c q)
  have np: "\<not> prefix old ((c # q) @ b)"
  proof
    assume pr: "prefix old ((c # q) @ b)"
    show False
    proof (cases "length old \<le> length (c # q)")
      case True
      with pr have "prefix old (c # q)"
        by (metis prefix_length_prefix prefixI append_Cons prefix_def)
      then have "sublist old (p1 @ c # q)"
        by (metis prefix_imp_sublist sublist_append_leftI sublist_order.order.trans)
      with Cons.prems(1) show False by simp
    next
      case False
      then have "prefix (c # q) old" using pr
        by (metis nat_le_linear prefix_length_prefix prefixI append_Cons prefix_def)
      moreover have "suffix (c # q) (p1 @ c # q)" by (simp add: suffix_def)
      ultimately show False using Cons.prems(2) by (auto simp: border_iff)
    qed
  qed
  have "str_replace old new ((c # q) @ b) = c # str_replace old new (q @ b)"
    using np old by simp
  moreover have "str_replace old new (q @ b) = q @ str_replace old new b"
    using Cons.IH[of "p1 @ [c]"] Cons.prems by simp
  ultimately show ?case by simp
qed

lemma occurrence_behind:
  assumes occ: "sublist p (old @ rest)"
    and nin: "\<not> sublist p old"
    and nb: "\<not> border old p"
  shows "sublist p rest"
proof -
  from occ obtain a b where eq: "old @ rest = a @ p @ b"
    by (auto simp: sublist_def)
  show ?thesis
  proof (cases "length old \<le> length a")
    case True
    from eq have "drop (length old) (old @ rest) = drop (length old) (a @ p @ b)"
      by simp
    with True have "rest = drop (length old) a @ p @ b"
      by simp
    then show ?thesis by (metis sublist_appendI)
  next
    case False
    define t where "t = drop (length a) old"
    from eq have "take (length a) (old @ rest) = take (length a) (a @ p @ b)"
      by simp
    with False have a: "take (length a) old = a"
      by simp
    then have old: "old = a @ t"
      unfolding t_def by (metis append_take_drop_id)
    from False have tne: "t \<noteq> []"
      unfolding t_def by simp
    from eq old have tr: "t @ rest = p @ b"
      by simp
    then have "prefix t p \<or> prefix p t"
      by (metis append_eq_append_conv2 prefixI)
    then show ?thesis
    proof
      assume "prefix t p"
      moreover have "suffix t old" using old by (simp add: suffix_def)
      ultimately have "border old p" using tne by (auto simp: border_iff)
      with nb show ?thesis by simp
    next
      assume "prefix p t"
      then obtain r where "t = p @ r" by (auto simp: prefix_def)
      with old have "old = a @ p @ r" by simp
      then have "sublist p old" by (metis sublist_appendI)
      with nin show ?thesis by simp
    qed
  qed
qed

lemma replace_keeps:
  "apart old p \<Longrightarrow> sublist p s \<Longrightarrow> sublist p (str_replace old new s)"
proof (induction old new s rule: str_replace.induct)
  case (1 old new)
  then show ?case by (simp add: apart_def)
next
  case (2 old new c cs)
  from "2.prems"(1) have ne: "old \<noteq> []"
    by (auto simp: apart_def)
  show ?case
  proof (cases "prefix old (c # cs)")
    case True
    define rest where "rest = drop (length old) (c # cs)"
    from True have split: "c # cs = old @ rest"
      unfolding rest_def by (metis append_eq_conv_conj prefix_def)
    from "2.prems" have "sublist p rest"
      using occurrence_behind[of p old rest] split by (simp add: apart_def)
    then have "sublist p (str_replace old new rest)"
      using "2.IH"(2)[OF ne True] "2.prems"(1) unfolding rest_def by simp
    then have "sublist p (new @ str_replace old new rest)"
      by (simp add: sublist_append)
    with ne True show ?thesis
      unfolding rest_def by simp
  next
    case False
    from "2.prems"(2) have "prefix p (c # cs) \<or> sublist p cs"
      by (simp add: sublist_Cons_right)
    then show ?thesis
    proof
      assume "sublist p cs"
      then have "sublist p (str_replace old new cs)"
        using "2.IH"(3)[OF ne False] "2.prems"(1) by simp
      with ne False show ?thesis
        by (simp add: sublist_Cons_right)
    next
      assume "prefix p (c # cs)"
      then obtain b where b: "c # cs = p @ b"
        by (auto simp: prefix_def)
      have "str_replace old new (p @ b) = p @ str_replace old new b"
        using replace_through[of old "[]" p new b] ne "2.prems"(1)
        by (simp add: apart_def)
      with b show ?thesis
        by (metis sublist_append_rightI)
    qed
  qed
qed

lemma github_apart_marker: "apart ''github.com'' gdrive_marker"
  by (simp add: apart_def border_def gdrive_marker_def sublist_code)

lemma blob_apart_marker: "apart ''blob/'' gdrive_marker"
  by (simp add: apart_def border_def gdrive_marker_def sublist_code)

lemma marker_survives:
  assumes "contains u gdrive_marker"
  shows "\<exists>u1. github_raw_url (PyStr u) = PyStr u1 \<and> contains u1 gdrive_marker"
  using assms replace_keeps[OF github_apart_marker, of u "''raw.githubusercontent.com''"]
    replace_keeps[OF blob_apart_marker,
      of "str_replace ''github.com'' ''raw.githubusercontent.com'' u" "''''"]
  by (simp add: github_raw_url_def contains_def)

lemma transfer_fuzzy:
  "contains u gdrive_marker \<Longrightarrow> appends fuzzy_if_download (transfer env (PyStr u) output opts)"
proof -
  assume "contains u gdrive_marker"
  then have "py_in gdrive_marker (PyStr u) = Inr True"
    by (simp add: py_in_def)
  moreover have "and_then (lift (Inr True)) f = f True" for f :: "bool \<Rightarrow> ('a, pyval) prog"
    by (rule ext) (simp add: and_then_def lift_def)
  ultimately show ?thesis
    unfolding transfer_def Let_def
    by (simp add: appends_call fuzzy_if_download_def)
qed

lemma skip_or_rewrite_result:
  "skip_or_rewrite env url output opts st = (Inr (Proceed url1), st1) \<Longrightarrow>
   url1 = github_raw_url url"
  unfolding skip_or_rewrite_def
  by (auto simp: and_then_def check_exists_def emit_def ret_def raise_def github_raw_url_def
      split: pyval.splits if_splits)

lemma after_out_dir_fuzzy:
  assumes "contains u gdrive_marker"
  shows "appends fuzzy_if_download (after_out_dir env (PyStr u) output out_dir opts)"
  unfolding after_out_dir_def
proof (rule appends_and_then_res)
  show "appends fuzzy_if_download (skip_or_rewrite env (PyStr u) output opts)"
    by (rule appends_weaken[OF skip_or_rewrite_quiet not_download_fuzzy])
next
  fix st d st1
  assume run: "skip_or_rewrite env (PyStr u) output opts st = (Inr d, st1)"
  show "appends fuzzy_if_download
          (case d of
             Skip p \<Rightarrow> ret (PyStr p)
           | Proceed url1 \<Rightarrow>
               and_then (transfer env url1 output opts) (\<lambda>output1.
               and_then (if unzip opts then unzip_output env out_dir output1 opts
                         else ret output1)
                 (\<lambda>output2.
               and_then (lift (py_abspath env output2)) (\<lambda>p. ret (PyStr p)))))"
  proof (cases d)
    case (Skip p)
    then show ?thesis by (simp add: appends_ret)
  next
    case (Proceed url1)
    with run have "url1 = github_raw_url (PyStr u)"
      by (simp add: skip_or_rewrite_result)
    with marker_survives[OF assms] obtain u1
      where u1: "url1 = PyStr u1" "contains u1 gdrive_marker"
      by auto
    have unz: "appends fuzzy_if_download (unzip_output env out_dir x opts)" for x
      by (rule appends_weaken[OF unzip_output_quiet not_download_fuzzy])
    show ?thesis
      unfolding Proceed decision.case u1(1)
      by (intro appends_intros transfer_fuzzy u1(2) unz)
  qed
qed

lemma download_file_fuzzy:
  assumes "contains u gdrive_marker"
  shows "appends fuzzy_if_download (download_file env (PyStr u) output opts)"
proof (cases "gdown_importable env")
  case False
  then show ?thesis
    unfolding download_file_def
    by (auto intro!: appends_intros simp: fuzzy_if_download_def)
next
  case True
  have "appends fuzzy_if_download (ensure_out_dir env x)" for x
    by (rule appends_weaken[OF ensure_out_dir_quiet not_download_fuzzy])
  with True show ?thesis
    unfolding download_file_def Let_def
    by (auto intro!: appends_and_then after_out_dir_fuzzy[OF assms])
qed

text \<open>
  C6. For every URL string in which \<^verbatim>\<open>https://drive.google.com/file/d/\<close> occurs, every
  transfer the call starts is given \<open>fuzzy = True\<close>, whatever the caller passed as
  \<open>fuzzy\<close>, whatever the other arguments and the environment are. The test of line 85
  is applied to the URL after \<^verbatim>\<open>github_raw_url\<close>; the marker is still in it, by the
  lemmas above. A run that skips the download, or stops before it, starts no transfer.
\<close>

theorem drive_url_forces_fuzzy:
  assumes "contains u gdrive_marker"
  shows "\<forall>a. Download a \<in> set (new_events st (snd (download_file env (PyStr u) output opts st)))
             \<longrightarrow> a_fuzzy a"
proof (intro allI impI)
  fix a
  assume a: "Download a \<in> set (new_events st (snd (download_file env (PyStr u) output opts st)))"
  have "list_all fuzzy_if_download
          (new_events st (snd (download_file env (PyStr u) output opts st)))"
    by (rule appends_new_events[OF download_file_fuzzy[OF assms]])
  with a have "fuzzy_if_download (Download a)"
    by (simp add: list_all_iff)
  then show "a_fuzzy a"
    by (simp add: fuzzy_if_download_def)
qed

theorem drive_url_forces_fuzzy_witness:
  "contains ''https://drive.google.com/file/d/abc/view'' gdrive_marker \<and>
   \<not> fuzzy sample_opts \<and>
   new_events (sample_state [''/w''])
     (snd (download_file (sample_env True) (PyStr ''https://drive.google.com/file/d/abc/view'')
             (PyStr ''m.bin'') sample_opts (sample_state [''/w'']))) =
     [Download \<lparr>a_url = PyStr ''https://drive.google.com/file/d/abc/view'',
                a_output = PyStr ''m.bin'', a_quiet = False, a_proxy = PyNone,
                a_speed = PyNone, a_use_cookies = True, a_verify = PyNone,
                a_id = PyNone, a_fuzzy = True, a_resume = False\<rparr>]"
  using drive_url_forces_fuzzy
    [of "''https://drive.google.com/file/d/abc/view''" "sample_state [''/w'']"
        "sample_env True" "PyStr ''m.bin''" sample_opts]
  by (simp add: new_events_def download_file_defs prog_defs py_defs string_defs path_defs
      sample_defs Let_def)

section \<open>The skip of an existing output\<close>

text \<open>
  C1, as amended. When \<^verbatim>\<open>gdown\<close> can be imported, the URL is a string, the output path
  (the given one, or the basename of an \<^verbatim>\<open>http\<close> URL when none is given) and its directory
  exist, and \<open>overwrite\<close> is false, \<^verbatim>\<open>download_file\<close> returns the absolute output path.
  The file system is untouched and the only event of the call is the message it prints:
  no directory is made and the transfer is not invoked.
\<close>

theorem existing_output_is_returned:
  assumes "gdown_importable env"
    and "default_output (PyStr u) output = PyStr out"
    and "os_path_exists env (fs st)
           (os_path_abspath (os_getcwd env) (os_path_dirname out))"
    and "os_path_exists env (fs st) (os_path_abspath (os_getcwd env) out)"
    and "\<not> overwrite opts"
  shows "download_file env (PyStr u) output opts st =
           (Inr (PyStr (os_path_abspath (os_getcwd env) out)),
            st\<lparr>trace := trace st @ [Print (skip_message out)]\<rparr>)"
  using assms
  by (simp add: download_file_def ensure_out_dir_def after_out_dir_def skip_or_rewrite_def
      prog_defs py_dirname_def Let_def)

theorem existing_output_is_returned_witness:
  "gdown_importable (sample_env True) \<and>
   download_file (sample_env True) (PyStr ''https://x.org/d/a.zip'') PyNone sample_opts
       (sample_state [''/w'', ''/w/a.zip'']) =
     (Inr (PyStr ''/w/a.zip''),
      \<lparr>fs = [''/w'', ''/w/a.zip''], trace = [Print (skip_message ''a.zip'')]\<rparr>)"
  using existing_output_is_returned
    [of "sample_env True" "''https://x.org/d/a.zip''" PyNone "''a.zip''"
        "sample_state [''/w'', ''/w/a.zip'']" sample_opts]
  by (simp add: default_output_def string_defs path_defs sample_defs)

text \<open>
  Without the import the claim fails: the output exists, \<open>overwrite\<close> is false, the URL is
  a string, and the call returns \<^verbatim>\<open>None\<close> (lines 60 to 66 come first).
\<close>

theorem existing_output_counterexample:
  "os_path_exists (sample_env False) [''/w'', ''/w/a.zip'']
     (os_path_abspath (os_getcwd (sample_env False)) ''a.zip'') \<and>
   \<not> overwrite sample_opts \<and>
   fst (download_file (sample_env False) (PyStr ''https://x.org/d/a.zip'') (PyStr ''a.zip'')
          sample_opts (sample_state [''/w'', ''/w/a.zip''])) = Inr PyNone"
  by (simp add: download_file_def prog_defs string_defs path_defs sample_defs)

section \<open>A call without a URL\<close>

lemma ensure_out_dir_cases:
  "ensure_out_dir env output st =
     (case output of
        PyStr out \<Rightarrow>
          (let d = os_path_abspath (os_getcwd env) (os_path_dirname out)
           in if os_path_exists env (fs st) d then (Inr d, st)
              else (case os_makedirs env d (fs st) of
                      (Inl e, s1) \<Rightarrow> (Inl e, \<lparr>fs = s1, trace = trace st @ [Makedirs d]\<rparr>)
                    | (Inr _, s1) \<Rightarrow> (Inr d, \<lparr>fs = s1, trace = trace st @ [Makedirs d]\<rparr>)))
      | _ \<Rightarrow> (Inl TypeError, st))"
  by (simp add: ensure_out_dir_def prog_defs py_dirname_def Let_def
      split: pyval.split prod.split sum.split)

lemma after_out_dir_none:
  "after_out_dir env PyNone output out_dir opts st = (Inl TypeError, st)"
  by (simp add: after_out_dir_def skip_or_rewrite_def transfer_def prog_defs py_in_def)

text \<open>
  C9, as amended. When \<^verbatim>\<open>gdown\<close> can be imported, a call with \<open>url = None\<close> always raises
  and never invokes the transfer. With \<open>output = None\<close> the exception is the \<open>TypeError\<close>
  of the directory computation and nothing has been done. With an output path it is
  the \<open>TypeError\<close> of the membership test on \<^verbatim>\<open>None\<close>, unless the output directory was
  missing and \<^verbatim>\<open>os.makedirs\<close> raised first, whose exception then is the one that leaves
  the call.
\<close>

theorem url_none_raises:
  assumes "gdown_importable env"
  shows "\<exists>e st1. download_file env PyNone output opts st = (Inl e, st1)
           \<and> (\<forall>a. Download a \<notin> set (new_events st st1))
           \<and> (output = PyNone \<longrightarrow> e = TypeError \<and> st1 = st)
           \<and> (e = TypeError \<or>
               (\<exists>out s1. output = PyStr out
                  \<and> \<not> os_path_exists env (fs st)
                        (os_path_abspath (os_getcwd env) (os_path_dirname out))
                  \<and> os_makedirs env (os_path_abspath (os_getcwd env) (os_path_dirname out))
                        (fs st) = (Inl e, s1)))"
proof (cases "output")
  case PyNone
  with assms show ?thesis
    by (simp add: download_file_def default_output_def ensure_out_dir_cases and_then_def
        new_events_def Let_def)
next
  case (PyInt i)
  with assms show ?thesis
    by (simp add: download_file_def default_output_def ensure_out_dir_cases and_then_def
        new_events_def Let_def)
next
  case (PyStr out)
  define d where "d = os_path_abspath (os_getcwd env) (os_path_dirname out)"
  show ?thesis
  proof (cases "os_path_exists env (fs st) d")
    case True
    with assms PyStr show ?thesis
      by (simp add: download_file_def default_output_def ensure_out_dir_cases and_then_def
          after_out_dir_none new_events_def d_def Let_def)
  next
    case False
    obtain r s1 where mk: "os_makedirs env d (fs st) = (r, s1)"
      by (cases "os_makedirs env d (fs st)")
    show ?thesis
    proof (cases r)
      case (Inl e)
      with assms PyStr False mk show ?thesis
        by (simp add: download_file_def default_output_def ensure_out_dir_cases and_then_def
            new_events_def d_def Let_def)
    next
      case (Inr x)
      with assms PyStr False mk show ?thesis
        by (simp add: download_file_def default_output_def ensure_out_dir_cases and_then_def
            after_out_dir_none new_events_def d_def Let_def)
    qed
  qed
qed

theorem url_none_raises_witness:
  "gdown_importable (sample_env True) \<and>
   download_file (sample_env True) PyNone (PyStr ''x/y'') sample_opts (sample_state [''/w'']) =
     (Inl TypeError, \<lparr>fs = [''/w/x'', ''/w''], trace = [Makedirs ''/w/x'']\<rparr>) \<and>
   download_file (sample_env True) PyNone PyNone sample_opts (sample_state [''/w'']) =
     (Inl TypeError, sample_state [''/w''])"
  using url_none_raises [of "sample_env True" "PyStr ''x/y''" sample_opts "sample_state [''/w'']"]
  by (simp add: download_file_defs prog_defs py_defs string_defs path_defs sample_defs Let_def)

text \<open>
  Without the import there is no exception at all: the call with \<open>url = None\<close> prints the
  hint and returns \<^verbatim>\<open>None\<close>.
\<close>

theorem url_none_counterexample:
  "fst (download_file (sample_env False) PyNone PyNone sample_opts (sample_state [''/w'']))
     = Inr PyNone"
  by (simp add: download_file_def prog_defs sample_defs)

section \<open>The output directory exists before it is used\<close>

lemma skip_or_rewrite_fs:
  "skip_or_rewrite env url output opts st = (r, st1) \<Longrightarrow> fs st1 = fs st"
  unfolding skip_or_rewrite_def
  by (auto simp: prog_defs split: pyval.splits if_splits)

lemma sample_makedirs_creates: "makedirs_creates (sample_env b)"
  by (simp add: makedirs_creates_def sample_env_def)

text \<open>
  C8. A call that gets past the import guard either leaves with the exception of the
  directory step, having done nothing else, or goes on to the skip check, the transfer
  and the extraction (\<open>after_out_dir\<close>) from a state in which the output directory
  \<open>abspath(dirname(output))\<close> exists: it was there already and nothing was done, or
  \<^verbatim>\<open>os.makedirs\<close> was called on it and returned. The skip check does not change the file
  system, so the directory also exists when the transfer starts.
\<close>

theorem out_dir_exists_before_use:
  assumes imp: "gdown_importable env" and mk: "makedirs_creates env"
  shows "(\<exists>e st1. ensure_out_dir env (default_output url output) st = (Inl e, st1)
            \<and> download_file env url output opts st = (Inl e, st1))
       \<or> (\<exists>out d st1. default_output url output = PyStr out
            \<and> d = os_path_abspath (os_getcwd env) (os_path_dirname out)
            \<and> ensure_out_dir env (PyStr out) st = (Inr d, st1)
            \<and> (if os_path_exists env (fs st) d then st1 = st
                else (\<exists>s1. os_makedirs env d (fs st) = (Inr (), s1)
                        \<and> st1 = \<lparr>fs = s1, trace = trace st @ [Makedirs d]\<rparr>))
            \<and> os_path_exists env (fs st1) d
            \<and> download_file env url output opts st = after_out_dir env url (PyStr out) d opts st1
            \<and> (\<forall>r st2. skip_or_rewrite env url (PyStr out) opts st1 = (r, st2)
                  \<longrightarrow> os_path_exists env (fs st2) d))"
proof (cases "default_output url output")
  case PyNone
  with imp show ?thesis
    by (simp add: download_file_def ensure_out_dir_cases and_then_def Let_def)
next
  case (PyInt i)
  with imp show ?thesis
    by (simp add: download_file_def ensure_out_dir_cases and_then_def Let_def)
next
  case (PyStr out)
  define d where "d = os_path_abspath (os_getcwd env) (os_path_dirname out)"
  show ?thesis
  proof (cases "os_path_exists env (fs st) d")
    case True
    with imp PyStr show ?thesis
      by (auto simp: download_file_def ensure_out_dir_cases and_then_def d_def Let_def
          dest: skip_or_rewrite_fs)
  next
    case False
    obtain r s1 where run: "os_makedirs env d (fs st) = (r, s1)"
      by (cases "os_makedirs env d (fs st)")
    show ?thesis
    proof (cases r)
      case (Inl e)
      with imp PyStr False run show ?thesis
        by (simp add: download_file_def ensure_out_dir_cases and_then_def d_def Let_def)
    next
      case (Inr x)
      with run mk have "os_path_exists env s1 d"
        by (auto simp: makedirs_creates_def)
      with imp PyStr False run Inr show ?thesis
        by (auto simp: download_file_def ensure_out_dir_cases and_then_def d_def Let_def
            dest: skip_or_rewrite_fs)
    qed
  qed
qed

theorem out_dir_exists_before_use_witness:
  "gdown_importable (sample_env True) \<and> makedirs_creates (sample_env True) \<and>
   ensure_out_dir (sample_env True) (PyStr ''data/a.zip'') (sample_state [''/w'']) =
     (Inr ''/w/data'', \<lparr>fs = [''/w/data'', ''/w''], trace = [Makedirs ''/w/data'']\<rparr>) \<and>
   os_path_exists (sample_env True) [''/w/data'', ''/w''] ''/w/data'' \<and>
   download_file (sample_env True) (PyStr ''https://x.org/a.zip'') (PyStr ''data/a.zip'')
       sample_opts (sample_state [''/w'']) =
     after_out_dir (sample_env True) (PyStr ''https://x.org/a.zip'') (PyStr ''data/a.zip'')
       ''/w/data'' sample_opts \<lparr>fs = [''/w/data'', ''/w''], trace = [Makedirs ''/w/data'']\<rparr>"
  using out_dir_exists_before_use
    [of "sample_env True" "PyStr ''https://x.org/a.zip''" "PyStr ''data/a.zip''"
        "sample_state [''/w'']" sample_opts]
    sample_makedirs_creates [of True]
  by (simp add: ensure_out_dir_cases default_output_def string_defs path_defs sample_defs
      Let_def)

section \<open>Extraction\<close>

lemma extract_into_events:
  assumes opened: "archive_open env k f (fs st) = (Inr (), s1)"
    and sub: "sub = os_path_join out_dir (fst (os_path_splitext (os_path_basename f)))"
    and folder: "subfolder opts \<longrightarrow>
                   os_path_exists env s1 sub \<or> (\<exists>s2. os_makedirs env sub s1 = (Inr (), s2))"
  shows "trace (snd (extract_into env k out_dir f opts st)) =
           trace st @ Open k f # (if quiet opts then [] else [Print ''Extracting files...'']) @
           (if subfolder opts
            then (if os_path_exists env s1 sub then [] else [Makedirs sub]) @
                 [ExtractAll k f sub]
            else [ExtractAll k f (os_path_dirname f)])"
  using assms
  by (auto simp: extract_into_def prog_defs Let_def split: prod.split sum.split)

lemma unzip_output_events:
  assumes ext: "endswith f ''.zip'' \<or> endswith f ''.tar'' \<or> endswith f ''.tar.gz''"
    and k: "k = (if endswith f ''.zip'' then Zip
                 else Tar (if endswith f ''.tar.gz'' then ''r:gz'' else ''r''))"
    and opened: "archive_open env k f (fs st) = (Inr (), s1)"
    and sub: "sub = os_path_join out_dir (fst (os_path_splitext (os_path_basename f)))"
    and folder: "subfolder opts \<longrightarrow>
                   os_path_exists env s1 sub \<or> (\<exists>s2. os_makedirs env sub s1 = (Inr (), s2))"
  shows "trace (snd (unzip_output env out_dir (PyStr f) opts st)) =
           trace st @ Open k f # (if quiet opts then [] else [Print ''Extracting files...'']) @
           (if subfolder opts
            then (if os_path_exists env s1 sub then [] else [Makedirs sub]) @
                 [ExtractAll k f sub]
            else [ExtractAll k f (os_path_dirname f)])"
proof -
  have same: "trace (snd (and_then m (\<lambda>r. ret (PyStr r)) st)) = trace (snd (m st))"
    for m :: "('a, string) prog"
    by (simp add: and_then_def ret_def split: prod.split sum.split)
  have "unzip_output env out_dir (PyStr f) opts =
          and_then (extract_into env k out_dir f opts) (\<lambda>r. ret (PyStr r))"
    using ext k by (auto simp: unzip_output_def Let_def)
  then show ?thesis
    using extract_into_events[OF opened sub folder] by (simp add: same)
qed

lemma ensure_out_dir_result:
  "ensure_out_dir env output st = (Inr d, st1) \<Longrightarrow>
   \<exists>out. output = PyStr out \<and> d = os_path_abspath (os_getcwd env) (os_path_dirname out)"
  by (auto simp: ensure_out_dir_cases Let_def split: pyval.splits if_splits prod.splits sum.splits)

text \<open>
  C3. Take a call that reaches the transfer, with \<open>unzip\<close> true, in which the library
  returns a file name \<open>f\<close> ending in \<^verbatim>\<open>.zip\<close>, \<^verbatim>\<open>.tar\<close> or \<^verbatim>\<open>.tar.gz\<close>, and let the archive
  open. What the call does after the transfer is then exactly: open the archive (as zip,
  or as tar with mode \<^verbatim>\<open>r:gz\<close> or \<^verbatim>\<open>r\<close>), print the notice unless \<open>quiet\<close>, and
  \<^item> without \<open>subfolder\<close>, extract into \<open>dirname(f)\<close>, the directory of the downloaded
    file, which is the output directory when the library returned the path it was given;
  \<^item> with \<open>subfolder\<close>, extract into the output directory joined with the basename of
    \<open>f\<close> without its extension in the sense of \<^verbatim>\<open>os.path.splitext\<close> (so \<^verbatim>\<open>a.tar.gz\<close> goes to
    \<^verbatim>\<open>a.tar\<close>), after making that folder when it does not exist.
  When the folder has to be made, \<^verbatim>\<open>os.makedirs\<close> is taken to return.
\<close>

theorem archives_are_extracted:
  assumes imp: "gdown_importable env"
    and dir: "ensure_out_dir env (default_output url output) st = (Inr out_dir, st1)"
    and go: "skip_or_rewrite env url (default_output url output) opts st1 =
               (Inr (Proceed url1), st2)"
    and got: "transfer env url1 (default_output url output) opts st2 = (Inr (PyStr f), st3)"
    and unz: "unzip opts"
    and ext: "endswith f ''.zip'' \<or> endswith f ''.tar'' \<or> endswith f ''.tar.gz''"
    and k: "k = (if endswith f ''.zip'' then Zip
                 else Tar (if endswith f ''.tar.gz'' then ''r:gz'' else ''r''))"
    and sub: "sub = os_path_join out_dir (fst (os_path_splitext (os_path_basename f)))"
    and opened: "archive_open env k f (fs st3) = (Inr (), s4)"
    and folder: "subfolder opts \<longrightarrow>
                   os_path_exists env s4 sub \<or> (\<exists>s5. os_makedirs env sub s4 = (Inr (), s5))"
  shows "new_events st3 (snd (download_file env url output opts st)) =
           Open k f # (if quiet opts then [] else [Print ''Extracting files...'']) @
           (if subfolder opts
            then (if os_path_exists env s4 sub then [] else [Makedirs sub]) @
                 [ExtractAll k f sub]
            else [ExtractAll k f (os_path_dirname f)])
         \<and> (default_output url output = PyStr f \<longrightarrow>
              out_dir = os_path_abspath (os_getcwd env) (os_path_dirname f))"
proof -
  let ?rest = "and_then (unzip_output env out_dir (PyStr f) opts)
                 (\<lambda>output2. and_then (lift (py_abspath env output2)) (\<lambda>p. ret (PyStr p)))"
  have run: "download_file env url output opts st = ?rest st3"
    using imp dir go got unz
    by (simp add: download_file_def after_out_dir_def and_then_def Let_def)
  have "trace (snd (?rest st3)) = trace (snd (unzip_output env out_dir (PyStr f) opts st3))"
    by (simp add: and_then_def lift_def ret_def split: prod.split sum.split)
  with run unzip_output_events[OF ext k opened sub folder]
  have "new_events st3 (snd (download_file env url output opts st)) =
           Open k f # (if quiet opts then [] else [Print ''Extracting files...'']) @
           (if subfolder opts
            then (if os_path_exists env s4 sub then [] else [Makedirs sub]) @
                 [ExtractAll k f sub]
            else [ExtractAll k f (os_path_dirname f)])"
    by (simp add: new_events_def)
  moreover have "default_output url output = PyStr f \<longrightarrow>
                   out_dir = os_path_abspath (os_getcwd env) (os_path_dirname f)"
    using ensure_out_dir_result[OF dir] by auto
  ultimately show ?thesis
    by blast
qed

theorem archives_are_extracted_witness:
  "new_events
     \<lparr>fs = [''/w/a.tar.gz'', ''/w''],
      trace = [Download \<lparr>a_url = PyStr ''https://x.org/d/a.tar.gz'',
                         a_output = PyStr ''a.tar.gz'', a_quiet = False, a_proxy = PyNone,
                         a_speed = PyNone, a_use_cookies = True, a_verify = PyNone,
                         a_id = PyNone, a_fuzzy = False, a_resume = False\<rparr>]\<rparr>
     (snd (download_file (sample_env True) (PyStr ''https://x.org/d/a.tar.gz'') PyNone
             (sample_opts\<lparr>subfolder := True\<rparr>) (sample_state [''/w'']))) =
     [Open (Tar ''r:gz'') ''a.tar.gz'', Print ''Extracting files...'', Makedirs ''/w/a.tar'',
      ExtractAll (Tar ''r:gz'') ''a.tar.gz'' ''/w/a.tar'']"
proof -
  let ?env = "sample_env True"
  let ?url = "PyStr ''https://x.org/d/a.tar.gz''"
  let ?opts = "sample_opts\<lparr>subfolder := True\<rparr>"
  let ?st = "sample_state [''/w'']"
  let ?args = "\<lparr>a_url = ?url, a_output = PyStr ''a.tar.gz'', a_quiet = False,
                 a_proxy = PyNone, a_speed = PyNone, a_use_cookies = True, a_verify = PyNone,
                 a_id = PyNone, a_fuzzy = False, a_resume = False\<rparr>"
  let ?st3 = "\<lparr>fs = [''/w/a.tar.gz'', ''/w''], trace = [Download ?args]\<rparr>"
  have out: "default_output ?url PyNone = PyStr ''a.tar.gz''"
    by (simp add: default_output_def string_defs path_defs)
  have imp: "gdown_importable ?env"
    by (simp add: sample_defs)
  have dir: "ensure_out_dir ?env (default_output ?url PyNone) ?st = (Inr ''/w'', ?st)"
    unfolding out
    by (simp add: ensure_out_dir_cases string_defs path_defs sample_defs Let_def)
  have go: "skip_or_rewrite ?env ?url (default_output ?url PyNone) ?opts ?st =
              (Inr (Proceed ?url), ?st)"
    unfolding out
    by (simp add: skip_or_rewrite_def github_raw_url_def prog_defs string_defs path_defs
        sample_defs)
  have got: "transfer ?env ?url (default_output ?url PyNone) ?opts ?st =
               (Inr (PyStr ''a.tar.gz''), ?st3)"
    unfolding out
    by (simp add: transfer_def gdrive_marker_def prog_defs py_defs string_defs path_defs
        sample_defs Let_def)
  have unz: "unzip ?opts"
    by (simp add: sample_defs)
  have ext: "endswith ''a.tar.gz'' ''.zip'' \<or> endswith ''a.tar.gz'' ''.tar'' \<or>
             endswith ''a.tar.gz'' ''.tar.gz''"
    by (simp add: string_defs)
  have k: "Tar ''r:gz'' =
             (if endswith ''a.tar.gz'' ''.zip'' then Zip
              else Tar (if endswith ''a.tar.gz'' ''.tar.gz'' then ''r:gz'' else ''r''))"
    by (simp add: string_defs)
  have sub: "''/w/a.tar'' =
               os_path_join ''/w'' (fst (os_path_splitext (os_path_basename ''a.tar.gz'')))"
    by (simp add: string_defs path_defs)
  have opened: "archive_open ?env (Tar ''r:gz'') ''a.tar.gz'' (fs ?st3) =
                  (Inr (), [''/w/a.tar.gz'', ''/w''])"
    by (simp add: sample_defs)
  have folder: "subfolder ?opts \<longrightarrow>
                  os_path_exists ?env [''/w/a.tar.gz'', ''/w''] ''/w/a.tar'' \<or>
                  (\<exists>s5. os_makedirs ?env ''/w/a.tar'' [''/w/a.tar.gz'', ''/w''] = (Inr (), s5))"
    by (simp add: sample_defs)
  from archives_are_extracted[OF imp dir go got unz ext k sub opened folder]
  show ?thesis
    by (simp add: sample_defs)
qed

section \<open>The batch\<close>

text \<open>
  The wrapped loop returns what the plain loop returns and leaves the same state; the
  list it fills has one entry per item whose destination could be computed, up to and
  including the first call that raised.
\<close>

lemma logged_apply:
  "logged f url output opts (calls, st) =
     (case f url output opts st of (r, st1) \<Rightarrow> (r, (calls @ [(url, output)], st1)))"
  by (simp add: logged_def)

lemma loop_logged:
  "\<exists>new. download_loop (logged f) od opts pairs (c0, st) =
            (fst (download_loop f od opts pairs st),
             (c0 @ new, snd (download_loop f od opts pairs st)))
         \<and> length new \<le> length pairs
         \<and> (fst (download_loop f od opts pairs st) = Inr () \<longrightarrow> length new = length pairs)
         \<and> (\<forall>i<length new. \<exists>d. destination od (fst (pairs ! i)) (snd (pairs ! i)) = Inr d
                                \<and> new ! i = (fst (pairs ! i), PyStr d))"
proof (induction pairs arbitrary: c0 st)
  case Nil
  then show ?case by simp
next
  case (Cons p pairs)
  obtain url name where p: "p = (url, name)"
    by (cases p)
  show ?case
  proof (cases "destination od url name")
    case (Inl e)
    with p show ?thesis by simp
  next
    case (Inr d)
    obtain r st1 where run: "f url (PyStr d) opts st = (r, st1)"
      by (cases "f url (PyStr d) opts st")
    show ?thesis
    proof (cases r)
      case (Inl e)
      with p Inr run show ?thesis
        by (auto simp: logged_apply intro!: exI[of _ "[(url, PyStr d)]"])
    next
      case (Inr x)
      from Cons.IH[of "c0 @ [(url, PyStr d)]" st1] obtain new where
        new: "download_loop (logged f) od opts pairs (c0 @ [(url, PyStr d)], st1) =
                (fst (download_loop f od opts pairs st1),
                 ((c0 @ [(url, PyStr d)]) @ new, snd (download_loop f od opts pairs st1)))"
          "length new \<le> length pairs"
          "fst (download_loop f od opts pairs st1) = Inr () \<longrightarrow> length new = length pairs"
          "\<forall>i<length new. \<exists>d. destination od (fst (pairs ! i)) (snd (pairs ! i)) = Inr d
                                \<and> new ! i = (fst (pairs ! i), PyStr d)"
        by blast
      have "\<forall>i<length ((url, PyStr d) # new).
              \<exists>d'. destination od (fst ((p # pairs) ! i)) (snd ((p # pairs) ! i)) = Inr d'
                  \<and> ((url, PyStr d) # new) ! i = (fst ((p # pairs) ! i), PyStr d')"
        using new(4) p \<open>destination od url name = Inr d\<close>
        by (auto simp: nth_Cons split: nat.split)
      with p \<open>destination od url name = Inr d\<close> run Inr new(1,2,3) show ?thesis
        by (intro exI[of _ "(url, PyStr d) # new"]) (simp add: logged_apply)
    qed
  qed
qed

lemma loop_append:
  "download_loop f od opts (pre @ rest) st =
     (case download_loop f od opts pre st of
        (Inl e, s) \<Rightarrow> (Inl e, s)
      | (Inr _, s) \<Rightarrow> download_loop f od opts rest s)"
  by (induction pre arbitrary: st) (auto split: sum.split prod.split)

lemma loop_take:
  "download_loop f od opts (zip urls names) =
   download_loop f od opts
     (zip (take (min (length urls) (length names)) urls)
          (take (min (length urls) (length names)) names))"
proof -
  have "zip urls names =
        zip (take (min (length urls) (length names)) urls)
            (take (min (length urls) (length names)) names)"
    by (metis take_zip length_zip take_all order_refl)
  then show ?thesis by simp
qed

lemma destination_Inr:
  "destination od url name = Inr d \<Longrightarrow>
   \<exists>dir. od = PyStr dir \<and>
     (case name of
        PyNone \<Rightarrow> \<exists>u. url = PyStr u \<and> d = os_path_join dir (os_path_basename u)
      | PyStr n \<Rightarrow> d = os_path_join dir n
      | PyInt j \<Rightarrow> False)"
  by (auto simp: destination_def py_join_def py_basename_def
      split: pyval.splits sum.splits if_splits)

lemma calls_made_loop:
  "\<exists>new. calls_made env urls out_dir filenames opts st = new
     \<and> download_files_with (logged (download_file env)) (os_getcwd env) urls out_dir filenames
         opts ([], st) =
       (fst (download_files env urls out_dir filenames opts st),
        (new, snd (download_files env urls out_dir filenames opts st)))
     \<and> length new \<le> length (zip urls (case filenames of
                                         None \<Rightarrow> replicate (length urls) PyNone
                                       | Some names \<Rightarrow> names))
     \<and> (fst (download_files env urls out_dir filenames opts st) = Inr () \<longrightarrow>
          length new = length (zip urls (case filenames of
                                           None \<Rightarrow> replicate (length urls) PyNone
                                         | Some names \<Rightarrow> names)))
     \<and> (\<forall>i<length new. \<exists>d.
           destination (if out_dir = PyNone then PyStr (os_getcwd env) else out_dir)
             (urls ! i)
             ((case filenames of None \<Rightarrow> replicate (length urls) PyNone
               | Some names \<Rightarrow> names) ! i) = Inr d
           \<and> new ! i = (urls ! i, PyStr d))"
proof -
  define od where "od = (if out_dir = PyNone then PyStr (os_getcwd env) else out_dir)"
  define names where "names = (case filenames of None \<Rightarrow> replicate (length urls) PyNone
                               | Some names \<Rightarrow> names)"
  from loop_logged[of "download_file env" od opts "zip urls names" "[]" st]
  obtain new where new:
    "download_loop (logged (download_file env)) od opts (zip urls names) ([], st) =
       (fst (download_loop (download_file env) od opts (zip urls names) st),
        (new, snd (download_loop (download_file env) od opts (zip urls names) st)))"
    "length new \<le> length (zip urls names)"
    "fst (download_loop (download_file env) od opts (zip urls names) st) = Inr () \<longrightarrow>
       length new = length (zip urls names)"
    "\<forall>i<length new. \<exists>d. destination od (fst (zip urls names ! i)) (snd (zip urls names ! i))
                            = Inr d \<and> new ! i = (fst (zip urls names ! i), PyStr d)"
    by auto
  have run: "download_files env urls out_dir filenames opts st =
             download_loop (download_file env) od opts (zip urls names) st"
    by (simp add: download_files_def download_files_with_def od_def names_def Let_def)
  have runl: "download_files_with (logged (download_file env)) (os_getcwd env) urls out_dir
                filenames opts ([], st) =
              download_loop (logged (download_file env)) od opts (zip urls names) ([], st)"
    by (simp add: download_files_with_def od_def names_def Let_def)
  have "\<forall>i<length new. \<exists>d. destination od (urls ! i) (names ! i) = Inr d
                            \<and> new ! i = (urls ! i, PyStr d)"
  proof (intro allI impI)
    fix i
    assume i: "i < length new"
    with new(2) have "i < length (zip urls names)" by simp
    then have "zip urls names ! i = (urls ! i, names ! i)" by simp
    with new(4) i show "\<exists>d. destination od (urls ! i) (names ! i) = Inr d
                            \<and> new ! i = (urls ! i, PyStr d)"
      by auto
  qed
  with new(1,2,3) run runl show ?thesis
    unfolding calls_made_def od_def[symmetric] names_def[symmetric]
    by (intro exI[of _ new]) simp
qed

text \<open>
  C4. Every call \<^verbatim>\<open>download_files\<close> makes to \<^verbatim>\<open>download_file\<close> is for the item at the same
  position of \<open>urls\<close>, and its destination is \<^verbatim>\<open>os.path.join\<close> of the directory and the
  basename of the URL when the item has no file name, of the directory and the file name
  otherwise. The directory is \<open>out_dir\<close>, or the working directory when \<open>out_dir\<close> is
  \<^verbatim>\<open>None\<close>.
\<close>

theorem destinations_passed:
  "\<forall>i < length (calls_made env urls out_dir filenames opts st). \<exists>dir d.
       (if out_dir = PyNone then PyStr (os_getcwd env) else out_dir) = PyStr dir
     \<and> calls_made env urls out_dir filenames opts st ! i = (urls ! i, PyStr d)
     \<and> (case (case filenames of None \<Rightarrow> PyNone | Some names \<Rightarrow> names ! i) of
          PyNone \<Rightarrow> \<exists>u. urls ! i = PyStr u \<and> d = os_path_join dir (os_path_basename u)
        | PyStr n \<Rightarrow> d = os_path_join dir n
        | PyInt j \<Rightarrow> False)"
proof (intro allI impI)
  fix i
  assume i: "i < length (calls_made env urls out_dir filenames opts st)"
  define names where "names = (case filenames of None \<Rightarrow> replicate (length urls) PyNone
                               | Some names \<Rightarrow> names)"
  from calls_made_loop[of env urls out_dir filenames opts st] i
  obtain d where d:
    "destination (if out_dir = PyNone then PyStr (os_getcwd env) else out_dir)
       (urls ! i) (names ! i) = Inr d"
    "calls_made env urls out_dir filenames opts st ! i = (urls ! i, PyStr d)"
    and len: "i < length (zip urls names)"
    unfolding names_def by fastforce
  from len have "names ! i = (case filenames of None \<Rightarrow> PyNone | Some names \<Rightarrow> names ! i)"
    unfolding names_def by (auto split: option.split)
  with destination_Inr[OF d(1)] d(2)
  show "\<exists>dir d.
       (if out_dir = PyNone then PyStr (os_getcwd env) else out_dir) = PyStr dir
     \<and> calls_made env urls out_dir filenames opts st ! i = (urls ! i, PyStr d)
     \<and> (case (case filenames of None \<Rightarrow> PyNone | Some names \<Rightarrow> names ! i) of
          PyNone \<Rightarrow> \<exists>u. urls ! i = PyStr u \<and> d = os_path_join dir (os_path_basename u)
        | PyStr n \<Rightarrow> d = os_path_join dir n
        | PyInt j \<Rightarrow> False)"
    by auto
qed

theorem destinations_passed_witness:
  "calls_made (sample_env True)
     [PyStr ''https://x.org/d/a.zip'', PyStr ''https://x.org/b.txt''] PyNone
     (Some [PyNone, PyStr ''k.txt'']) sample_opts (sample_state [''/w'']) =
   [(PyStr ''https://x.org/d/a.zip'', PyStr ''/w/a.zip''),
    (PyStr ''https://x.org/b.txt'', PyStr ''/w/k.txt'')]"
  using destinations_passed
    [of "sample_env True" "[PyStr ''https://x.org/d/a.zip'', PyStr ''https://x.org/b.txt'']"
        PyNone "Some [PyNone, PyStr ''k.txt'']" sample_opts "sample_state [''/w'']"]
  by (simp add: calls_made_def download_files_with_def destination_def logged_apply
      download_file_defs prog_defs py_defs string_defs path_defs sample_defs Let_def)

text \<open>
  C7. When the items before some position have been processed and \<^verbatim>\<open>download_file\<close>
  raises on the item at that position, \<^verbatim>\<open>download_files\<close> ends with that exception in the
  state the failing call left, and the calls it has made are those of the items before
  plus the failing one: no later item is processed.
\<close>

theorem failure_aborts_batch:
  assumes pairs: "zip urls (case filenames of None \<Rightarrow> replicate (length urls) PyNone
                            | Some names \<Rightarrow> names) = pre @ (url, name) # post"
    and od: "od = (if out_dir = PyNone then PyStr (os_getcwd env) else out_dir)"
    and before: "download_loop (download_file env) od opts pre st = (Inr (), st1)"
    and dest: "destination od url name = Inr d"
    and fail: "download_file env url (PyStr d) opts st1 = (Inl e, st2)"
  shows "download_files env urls out_dir filenames opts st = (Inl e, st2)
       \<and> length (calls_made env urls out_dir filenames opts st) = Suc (length pre)
       \<and> calls_made env urls out_dir filenames opts st ! length pre = (url, PyStr d)"
proof -
  from loop_logged[of "download_file env" od opts pre "[]" st] before
  obtain new where new:
    "download_loop (logged (download_file env)) od opts pre ([], st) = (Inr (), (new, st1))"
    "length new = length pre"
    by auto
  have "download_files env urls out_dir filenames opts st = (Inl e, st2)"
    using pairs od before dest fail
    by (simp add: download_files_def download_files_with_def Let_def loop_append)
  moreover have "calls_made env urls out_dir filenames opts st = new @ [(url, PyStr d)]"
    using pairs od new(1) dest fail
    by (simp add: calls_made_def download_files_with_def Let_def loop_append logged_apply)
  ultimately show ?thesis
    using new(2) by (simp add: nth_append)
qed

theorem failure_aborts_batch_witness:
  "download_files (sample_env True)
     [PyStr ''https://x.org/a.txt'', PyNone, PyStr ''https://x.org/c.txt''] PyNone
     (Some [PyNone, PyStr ''k'', PyNone]) sample_opts (sample_state [''/w'']) =
     (Inl TypeError,
      \<lparr>fs = [''/w/a.txt'', ''/w''],
       trace = [Download \<lparr>a_url = PyStr ''https://x.org/a.txt'',
                          a_output = PyStr ''/w/a.txt'', a_quiet = False, a_proxy = PyNone,
                          a_speed = PyNone, a_use_cookies = True, a_verify = PyNone,
                          a_id = PyNone, a_fuzzy = False, a_resume = False\<rparr>]\<rparr>)
   \<and> length (calls_made (sample_env True)
       [PyStr ''https://x.org/a.txt'', PyNone, PyStr ''https://x.org/c.txt''] PyNone
       (Some [PyNone, PyStr ''k'', PyNone]) sample_opts (sample_state [''/w''])) = 2"
proof -
  let ?env = "sample_env True"
  let ?args = "\<lparr>a_url = PyStr ''https://x.org/a.txt'', a_output = PyStr ''/w/a.txt'',
                 a_quiet = False, a_proxy = PyNone, a_speed = PyNone, a_use_cookies = True,
                 a_verify = PyNone, a_id = PyNone, a_fuzzy = False, a_resume = False\<rparr>"
  let ?st1 = "\<lparr>fs = [''/w/a.txt'', ''/w''], trace = [Download ?args]\<rparr>"
  have pairs: "zip [PyStr ''https://x.org/a.txt'', PyNone, PyStr ''https://x.org/c.txt'']
                 (case Some [PyNone, PyStr ''k'', PyNone] of
                    None \<Rightarrow> replicate (length [PyStr ''https://x.org/a.txt'', PyNone,
                                               PyStr ''https://x.org/c.txt'']) PyNone
                  | Some names \<Rightarrow> names) =
               [(PyStr ''https://x.org/a.txt'', PyNone)] @ (PyNone, PyStr ''k'') #
               [(PyStr ''https://x.org/c.txt'', PyNone)]"
    by simp
  have od: "PyStr ''/w'' = (if PyNone = PyNone then PyStr (os_getcwd ?env) else PyNone)"
    by (simp add: sample_defs)
  have before: "download_loop (download_file ?env) (PyStr ''/w'') sample_opts
                  [(PyStr ''https://x.org/a.txt'', PyNone)] (sample_state [''/w'']) =
                (Inr (), ?st1)"
    by (simp add: destination_def download_file_defs prog_defs py_defs string_defs path_defs
        sample_defs Let_def)
  have dest: "destination (PyStr ''/w'') PyNone (PyStr ''k'') = Inr ''/w/k''"
    by (simp add: destination_def py_defs string_defs path_defs)
  have fail: "download_file ?env PyNone (PyStr ''/w/k'') sample_opts ?st1 =
                (Inl TypeError, ?st1)"
    by (simp add: download_file_defs prog_defs py_defs string_defs path_defs sample_defs
        Let_def)
  from failure_aborts_batch[OF pairs od before dest fail]
  show ?thesis
    by simp
qed

text \<open>
  C10. With a list of file names, the batch is the batch of the two lists cut to the
  length of the shorter one: same result, same state, same calls. It makes at most that
  many calls, exactly that many when it returns, and the call at each position is for
  the URL at that position; what lies beyond in the longer list is never looked at and
  raises nothing.
\<close>

theorem zip_truncates_batch:
  "download_files env urls out_dir (Some names) opts st =
     download_files env (take (min (length urls) (length names)) urls) out_dir
       (Some (take (min (length urls) (length names)) names)) opts st
   \<and> calls_made env urls out_dir (Some names) opts st =
     calls_made env (take (min (length urls) (length names)) urls) out_dir
       (Some (take (min (length urls) (length names)) names)) opts st
   \<and> length (calls_made env urls out_dir (Some names) opts st)
       \<le> min (length urls) (length names)
   \<and> (fst (download_files env urls out_dir (Some names) opts st) = Inr () \<longrightarrow>
        length (calls_made env urls out_dir (Some names) opts st)
          = min (length urls) (length names))
   \<and> (\<forall>i < length (calls_made env urls out_dir (Some names) opts st).
        fst (calls_made env urls out_dir (Some names) opts st ! i) = urls ! i)"
proof -
  have "download_files env urls out_dir (Some names) opts st =
     download_files env (take (min (length urls) (length names)) urls) out_dir
       (Some (take (min (length urls) (length names)) names)) opts st"
    using loop_take[of "download_file env" _ opts urls names]
    by (simp add: download_files_def download_files_with_def Let_def)
  moreover have "calls_made env urls out_dir (Some names) opts st =
     calls_made env (take (min (length urls) (length names)) urls) out_dir
       (Some (take (min (length urls) (length names)) names)) opts st"
    using loop_take[of "logged (download_file env)" _ opts urls names]
    by (simp add: calls_made_def download_files_with_def Let_def)
  moreover from calls_made_loop[of env urls out_dir "Some names" opts st]
  have "length (calls_made env urls out_dir (Some names) opts st)
          \<le> min (length urls) (length names)"
    and "fst (download_files env urls out_dir (Some names) opts st) = Inr () \<longrightarrow>
        length (calls_made env urls out_dir (Some names) opts st)
          = min (length urls) (length names)"
    and "\<forall>i < length (calls_made env urls out_dir (Some names) opts st).
        fst (calls_made env urls out_dir (Some names) opts st ! i) = urls ! i"
    by auto
  ultimately show ?thesis
    by blast
qed

theorem zip_truncates_batch_witness:
  "calls_made (sample_env True)
     [PyStr ''https://x.org/a.txt'', PyStr ''https://x.org/b.txt'', PyStr ''https://x.org/c.txt'']
     (PyStr ''out'') (Some [PyStr ''k.txt'']) sample_opts (sample_state [''/w'']) =
   [(PyStr ''https://x.org/a.txt'', PyStr ''out/k.txt'')]
   \<and> fst (download_files (sample_env True)
         [PyStr ''https://x.org/a.txt'', PyStr ''https://x.org/b.txt'',
          PyStr ''https://x.org/c.txt'']
         (PyStr ''out'') (Some [PyStr ''k.txt'']) sample_opts (sample_state [''/w''])) = Inr ()"
  using zip_truncates_batch
    [of "sample_env True"
        "[PyStr ''https://x.org/a.txt'', PyStr ''https://x.org/b.txt'',
          PyStr ''https://x.org/c.txt'']"
        "PyStr ''out''" "[PyStr ''k.txt'']" sample_opts "sample_state [''/w'']"]
  by (simp add: calls_made_def download_files_def download_files_with_def destination_def
      logged_apply download_file_defs prog_defs py_defs string_defs path_defs sample_defs
      Let_def)

end
